theory Spec2Isabelle
  imports
    Main
    "HOL-Library.Word"
    "HOL-Library.Multiset"
    "HOL-Library.Char_ord"
    "HOL-Library.List_Lexorder"
begin

unbundle bit_operations_syntax

section \<open>Package hash: the FNV-1a accumulator\<close>

text \<open>
  Modelled from the spec: the file \<^verbatim>\<open>hash/fnv.go\<close> (constants \<^verbatim>\<open>offset64\<close>,
  \<^verbatim>\<open>prime64\<close>, \<^verbatim>\<open>SeparatorByte\<close> and the functions \<^verbatim>\<open>New\<close>, \<^verbatim>\<open>AddByte\<close>,
  \<^verbatim>\<open>Add\<close>, \<^verbatim>\<open>AddUint64\<close>) is not among the sources; only its test file is.
  The spec (4.1) calls the accumulator the canonical 64-bit FNV-1a: a fixed offset basis,
  \<^verbatim>\<open>AddByte(state, b) = (state XOR b) * prime\<close> with 64-bit wrap-around, \<^verbatim>\<open>Add\<close> folding
  \<^verbatim>\<open>AddByte\<close> over the bytes of a string in order, and \<^verbatim>\<open>AddUint64\<close> folding \<^verbatim>\<open>AddByte\<close>
  over the eight bytes of the value, least significant first.  The numbers are those of
  64-bit FNV-1a; the separator is the byte 255, which never occurs in UTF-8 text.
  A Go \<^verbatim>\<open>uint64\<close> is a \<^typ>\<open>64 word\<close>, a \<^verbatim>\<open>byte\<close> an \<^typ>\<open>8 word\<close>, a \<^verbatim>\<open>string\<close> the list
  of its bytes.
\<close>

definition offset64 :: "64 word" where
  "offset64 = 14695981039346656037"

definition prime64 :: "64 word" where
  "prime64 = 1099511628211"

definition SeparatorByte :: "8 word" where
  "SeparatorByte = 255"

definition New :: "64 word" where
  "New = offset64"

definition AddByte :: "64 word \<Rightarrow> 8 word \<Rightarrow> 64 word" where
  "AddByte h b = (h XOR ucast b) * prime64"

definition Add :: "64 word \<Rightarrow> string \<Rightarrow> 64 word" where
  "Add h s = foldl (\<lambda>h c. AddByte h (of_nat (of_char c))) h s"

definition AddUint64 :: "64 word \<Rightarrow> 64 word \<Rightarrow> 64 word" where
  "AddUint64 h v = foldl (\<lambda>h i. AddByte h (ucast (drop_bit (8 * i) v))) h [0..<8]"

text \<open>The function the test file calls the old implementation: one XOR of the whole
  value and one multiplication.\<close>

definition oldAddUint64 :: "64 word \<Rightarrow> 64 word \<Rightarrow> 64 word" where
  "oldAddUint64 h v = (h XOR v) * prime64"

section \<open>Package sort of the Go standard library: \<^verbatim>\<open>sort.Slice\<close>\<close>

text \<open>
  \<^verbatim>\<open>hashLabelsTimestamp\<close> and \<^verbatim>\<open>hashLabels\<close> order the label indices with \<^verbatim>\<open>sort.Slice\<close>.
  The repository needs \<^verbatim>\<open>log/slog\<close>, hence Go 1.21 or later, where \<^verbatim>\<open>sort.Slice\<close> is
  the pattern-defeating quicksort of \<^verbatim>\<open>sort/zsortfunc.go\<close>.  The slice is a list, the
  comparison closure a relation \<open>lt\<close> on its elements, so that \<^verbatim>\<open>data.Less(i, j)\<close> is
  \<open>lt (d ! i) (d ! j)\<close> and \<^verbatim>\<open>data.Swap(i, j)\<close> exchanges two positions.  Go's \<^verbatim>\<open>int\<close>
  indices are natural numbers here: every index the library computes on a range
  \<open>a \<le> b \<le> length d\<close> lies in that range, and the two places where a counter would pass
  below zero are written with the counter shifted by one.
\<close>

definition Swap :: "'a list \<Rightarrow> nat \<Rightarrow> nat \<Rightarrow> 'a list" where
  "Swap d i j = d[i := d ! j, j := d ! i]"

subsection \<open>insertionSort\<close>

function insertionSort_inner :: "('a \<Rightarrow> 'a \<Rightarrow> bool) \<Rightarrow> 'a list \<Rightarrow> nat \<Rightarrow> nat \<Rightarrow> 'a list" where
  "insertionSort_inner lt d a j =
     (if a < j \<and> lt (d ! j) (d ! (j - 1))
      then insertionSort_inner lt (Swap d j (j - 1)) a (j - 1)
      else d)"
  by pat_completeness auto
termination
  by (relation "measure (\<lambda>(lt, d, a, j). j)") auto

declare insertionSort_inner.simps [simp del]

function insertionSort_outer :: "('a \<Rightarrow> 'a \<Rightarrow> bool) \<Rightarrow> 'a list \<Rightarrow> nat \<Rightarrow> nat \<Rightarrow> nat \<Rightarrow> 'a list" where
  "insertionSort_outer lt d a b i =
     (if i < b
      then insertionSort_outer lt (insertionSort_inner lt d a i) a b (i + 1)
      else d)"
  by pat_completeness auto
termination
  by (relation "measure (\<lambda>(lt, d, a, b, i). b - i)") auto

declare insertionSort_outer.simps [simp del]

definition insertionSort_func :: "('a \<Rightarrow> 'a \<Rightarrow> bool) \<Rightarrow> 'a list \<Rightarrow> nat \<Rightarrow> nat \<Rightarrow> 'a list" where
  "insertionSort_func lt d a b = insertionSort_outer lt d a b (a + 1)"

subsection \<open>heapSort\<close>

function siftDown_func :: "('a \<Rightarrow> 'a \<Rightarrow> bool) \<Rightarrow> 'a list \<Rightarrow> nat \<Rightarrow> nat \<Rightarrow> nat \<Rightarrow> 'a list" where
  "siftDown_func lt d root hi first =
     (let child = 2 * root + 1 in
      if hi \<le> child then d
      else
        let child = (if child + 1 < hi \<and> lt (d ! (first + child)) (d ! (first + child + 1))
                     then child + 1 else child) in
        if \<not> lt (d ! (first + root)) (d ! (first + child)) then d
        else siftDown_func lt (Swap d (first + root) (first + child)) child hi first)"
  by pat_completeness auto
termination
  by (relation "measure (\<lambda>(lt, d, root, hi, first). hi - root)") (auto simp: Let_def)

declare siftDown_func.simps [simp del]

text \<open>The loops \<^verbatim>\<open>for i := (hi - 1) / 2; i >= 0; i--\<close> and \<^verbatim>\<open>for i := hi - 1; i >= 0; i--\<close>
  count \<open>i + 1\<close> down to zero.\<close>

fun heapSort_build :: "('a \<Rightarrow> 'a \<Rightarrow> bool) \<Rightarrow> 'a list \<Rightarrow> nat \<Rightarrow> nat \<Rightarrow> nat \<Rightarrow> 'a list" where
  "heapSort_build lt d hi first 0 = d"
| "heapSort_build lt d hi first (Suc i) =
     heapSort_build lt (siftDown_func lt d i hi first) hi first i"

fun heapSort_pop :: "('a \<Rightarrow> 'a \<Rightarrow> bool) \<Rightarrow> 'a list \<Rightarrow> nat \<Rightarrow> nat \<Rightarrow> 'a list" where
  "heapSort_pop lt d first 0 = d"
| "heapSort_pop lt d first (Suc i) =
     heapSort_pop lt (siftDown_func lt (Swap d first (first + i)) 0 i first) first i"

definition heapSort_func :: "('a \<Rightarrow> 'a \<Rightarrow> bool) \<Rightarrow> 'a list \<Rightarrow> nat \<Rightarrow> nat \<Rightarrow> 'a list" where
  "heapSort_func lt d a b =
     (let first = a; hi = b - a;
          d = heapSort_build lt d hi first ((hi - 1) div 2 + 1)
      in heapSort_pop lt d first hi)"

subsection \<open>Pivot choice and pattern breaking\<close>

datatype sortedHint = unknownHint | increasingHint | decreasingHint

definition order2_func :: "('a \<Rightarrow> 'a \<Rightarrow> bool) \<Rightarrow> 'a list \<Rightarrow> nat \<Rightarrow> nat \<Rightarrow> nat \<Rightarrow> nat \<times> nat \<times> nat" where
  "order2_func lt d a b swaps =
     (if lt (d ! b) (d ! a) then (b, a, swaps + 1) else (a, b, swaps))"

definition median_func :: "('a \<Rightarrow> 'a \<Rightarrow> bool) \<Rightarrow> 'a list \<Rightarrow> nat \<Rightarrow> nat \<Rightarrow> nat \<Rightarrow> nat \<Rightarrow> nat \<times> nat" where
  "median_func lt d a b c swaps =
     (case order2_func lt d a b swaps of (a, b, swaps) \<Rightarrow>
      case order2_func lt d b c swaps of (b, c, swaps) \<Rightarrow>
      case order2_func lt d a b swaps of (a, b, swaps) \<Rightarrow> (b, swaps))"

definition medianAdjacent_func :: "('a \<Rightarrow> 'a \<Rightarrow> bool) \<Rightarrow> 'a list \<Rightarrow> nat \<Rightarrow> nat \<Rightarrow> nat \<times> nat" where
  "medianAdjacent_func lt d a swaps = median_func lt d (a - 1) a (a + 1) swaps"

definition choosePivot_func :: "('a \<Rightarrow> 'a \<Rightarrow> bool) \<Rightarrow> 'a list \<Rightarrow> nat \<Rightarrow> nat \<Rightarrow> nat \<times> sortedHint" where
  "choosePivot_func lt d a b =
     (let l = b - a;
          i = a + l div 4 * 1;
          j = a + l div 4 * 2;
          k = a + l div 4 * 3;
          (j, swaps) =
            (if 8 \<le> l then
               (if 50 \<le> l then
                  (case medianAdjacent_func lt d i 0 of (i, swaps) \<Rightarrow>
                   case medianAdjacent_func lt d j swaps of (j, swaps) \<Rightarrow>
                   case medianAdjacent_func lt d k swaps of (k, swaps) \<Rightarrow>
                     median_func lt d i j k swaps)
                else median_func lt d i j k 0)
             else (j, 0))
      in if swaps = 0 then (j, increasingHint)
         else if swaps = 4 * 3 then (j, decreasingHint)
         else (j, unknownHint))"

function reverseRange_loop :: "'a list \<Rightarrow> nat \<Rightarrow> nat \<Rightarrow> 'a list" where
  "reverseRange_loop d i j =
     (if i < j then reverseRange_loop (Swap d i j) (i + 1) (j - 1) else d)"
  by pat_completeness auto
termination
  by (relation "measure (\<lambda>(d, i, j). j - i)") auto

declare reverseRange_loop.simps [simp del]

definition reverseRange_func :: "'a list \<Rightarrow> nat \<Rightarrow> nat \<Rightarrow> 'a list" where
  "reverseRange_func d a b = reverseRange_loop d a (b - 1)"

fun bits_Len :: "nat \<Rightarrow> nat" where
  "bits_Len n = (if n = 0 then 0 else Suc (bits_Len (n div 2)))"

declare bits_Len.simps [simp del]

definition nextPowerOfTwo :: "nat \<Rightarrow> nat" where
  "nextPowerOfTwo len = 2 ^ bits_Len len"

definition xorshift_Next :: "64 word \<Rightarrow> 64 word" where
  "xorshift_Next r =
     (let r = r XOR push_bit 13 r;
          r = r XOR drop_bit 7 r;
          r = r XOR push_bit 17 r
      in r)"

fun breakPatterns_loop :: "'a list \<Rightarrow> nat \<Rightarrow> nat \<Rightarrow> nat \<Rightarrow> nat \<Rightarrow> 64 word \<Rightarrow> nat \<Rightarrow> nat \<Rightarrow> 'a list" where
  "breakPatterns_loop d a len modulus idx random i 0 = d"
| "breakPatterns_loop d a len modulus idx random i (Suc n) =
     (let random = xorshift_Next random;
          other = unat (random AND of_nat (modulus - 1));
          other = (if len \<le> other then other - len else other)
      in breakPatterns_loop (Swap d (idx - 1 + i) (a + other)) a len modulus idx random (i + 1) n)"

definition breakPatterns_func :: "'a list \<Rightarrow> nat \<Rightarrow> nat \<Rightarrow> 'a list" where
  "breakPatterns_func d a b =
     (let len = b - a in
      if 8 \<le> len then
        breakPatterns_loop d a len (nextPowerOfTwo len) (a + (len div 4) * 2 - 1)
          (of_nat len) 0 3
      else d)"

subsection \<open>partialInsertionSort\<close>

function partialInsertionSort_scan :: "('a \<Rightarrow> 'a \<Rightarrow> bool) \<Rightarrow> 'a list \<Rightarrow> nat \<Rightarrow> nat \<Rightarrow> nat" where
  "partialInsertionSort_scan lt d b i =
     (if i < b \<and> \<not> lt (d ! i) (d ! (i - 1))
      then partialInsertionSort_scan lt d b (i + 1)
      else i)"
  by pat_completeness auto
termination
  by (relation "measure (\<lambda>(lt, d, b, i). b - i)") auto

declare partialInsertionSort_scan.simps [simp del]

text \<open>The shift to the left runs \<^verbatim>\<open>for j := i - 1; j >= 1; j--\<close>: its bound is the
  index 1, not the start of the range.\<close>

function partialInsertionSort_left :: "('a \<Rightarrow> 'a \<Rightarrow> bool) \<Rightarrow> 'a list \<Rightarrow> nat \<Rightarrow> 'a list" where
  "partialInsertionSort_left lt d j =
     (if 1 \<le> j then
        (if \<not> lt (d ! j) (d ! (j - 1)) then d
         else partialInsertionSort_left lt (Swap d j (j - 1)) (j - 1))
      else d)"
  by pat_completeness auto
termination
  by (relation "measure (\<lambda>(lt, d, j). j)") auto

declare partialInsertionSort_left.simps [simp del]

function partialInsertionSort_right :: "('a \<Rightarrow> 'a \<Rightarrow> bool) \<Rightarrow> 'a list \<Rightarrow> nat \<Rightarrow> nat \<Rightarrow> 'a list" where
  "partialInsertionSort_right lt d b j =
     (if j < b then
        (if \<not> lt (d ! j) (d ! (j - 1)) then d
         else partialInsertionSort_right lt (Swap d j (j - 1)) b (j + 1))
      else d)"
  by pat_completeness auto
termination
  by (relation "measure (\<lambda>(lt, d, b, j). b - j)") auto

declare partialInsertionSort_right.simps [simp del]

text \<open>The last argument counts the iterations left of \<^verbatim>\<open>for j := 0; j < maxSteps; j++\<close>.\<close>

function partialInsertionSort_loop ::
  "('a \<Rightarrow> 'a \<Rightarrow> bool) \<Rightarrow> 'a list \<Rightarrow> nat \<Rightarrow> nat \<Rightarrow> nat \<Rightarrow> nat \<Rightarrow> 'a list \<times> bool" where
  "partialInsertionSort_loop lt d a b i 0 = (d, False)"
| "partialInsertionSort_loop lt d a b i (Suc n) =
     (let i = partialInsertionSort_scan lt d b i in
      if i = b then (d, True)
      else if b - a < 50 then (d, False)
      else
        let d = Swap d i (i - 1);
            d = (if 2 \<le> i - a then partialInsertionSort_left lt d (i - 1) else d);
            d = (if 2 \<le> b - i then partialInsertionSort_right lt d b (i + 1) else d)
        in partialInsertionSort_loop lt d a b i n)"
  by pat_completeness simp_all
termination
  by (relation "measure (\<lambda>(lt, d, a, b, i, n). n)") simp_all

definition partialInsertionSort_func ::
  "('a \<Rightarrow> 'a \<Rightarrow> bool) \<Rightarrow> 'a list \<Rightarrow> nat \<Rightarrow> nat \<Rightarrow> 'a list \<times> bool" where
  "partialInsertionSort_func lt d a b = partialInsertionSort_loop lt d a b (a + 1) 5"

subsection \<open>partition and partitionEqual\<close>

text \<open>In both functions \<^verbatim>\<open>j\<close> is inclusive and may step below \<^verbatim>\<open>i\<close>; the model carries
  \<open>j1 = j + 1\<close>, so that \<^verbatim>\<open>i <= j\<close> reads \<open>i < j1\<close> and \<^verbatim>\<open>data[j]\<close> reads \<open>d ! (j1 - 1)\<close>.\<close>

function partition_up :: "('a \<Rightarrow> 'a \<Rightarrow> bool) \<Rightarrow> 'a list \<Rightarrow> nat \<Rightarrow> nat \<Rightarrow> nat \<Rightarrow> nat" where
  "partition_up lt d a i j1 =
     (if i < j1 \<and> lt (d ! i) (d ! a) then partition_up lt d a (i + 1) j1 else i)"
  by pat_completeness auto
termination
  by (relation "measure (\<lambda>(lt, d, a, i, j1). j1 - i)") auto

declare partition_up.simps [simp del]

function partition_down :: "('a \<Rightarrow> 'a \<Rightarrow> bool) \<Rightarrow> 'a list \<Rightarrow> nat \<Rightarrow> nat \<Rightarrow> nat \<Rightarrow> nat" where
  "partition_down lt d a i j1 =
     (if i < j1 \<and> \<not> lt (d ! (j1 - 1)) (d ! a) then partition_down lt d a i (j1 - 1) else j1)"
  by pat_completeness auto
termination
  by (relation "measure (\<lambda>(lt, d, a, i, j1). j1)") auto

declare partition_down.simps [simp del]

lemma partition_up_le: "i \<le> partition_up lt d a i j1"
proof (induction lt d a i j1 rule: partition_up.induct)
  case (1 lt d a i j1)
  show ?case
  proof (cases "i < j1 \<and> lt (d ! i) (d ! a)")
    case True
    with 1 have "i + 1 \<le> partition_up lt d a (i + 1) j1" by blast
    with True show ?thesis by (subst partition_up.simps) simp
  next
    case False
    then show ?thesis by (subst partition_up.simps) auto
  qed
qed

lemma partition_up_le2: "i \<le> j1 \<Longrightarrow> partition_up lt d a i j1 \<le> j1"
proof (induction lt d a i j1 rule: partition_up.induct)
  case (1 lt d a i j1)
  show ?case
  proof (cases "i < j1 \<and> lt (d ! i) (d ! a)")
    case True
    with 1 have "partition_up lt d a (i + 1) j1 \<le> j1" by simp
    with True show ?thesis by (subst partition_up.simps) simp
  next
    case False
    with 1 show ?thesis by (subst partition_up.simps) auto
  qed
qed

lemma partition_down_le: "partition_down lt d a i j1 \<le> j1"
proof (induction lt d a i j1 rule: partition_down.induct)
  case (1 lt d a i j1)
  show ?case
  proof (cases "i < j1 \<and> \<not> lt (d ! (j1 - 1)) (d ! a)")
    case True
    with 1 have "partition_down lt d a i (j1 - 1) \<le> j1 - 1" by blast
    with True show ?thesis by (subst partition_down.simps) simp
  next
    case False
    then show ?thesis by (subst partition_down.simps) auto
  qed
qed

lemma partition_down_ge: "i \<le> j1 \<Longrightarrow> i \<le> partition_down lt d a i j1"
proof (induction lt d a i j1 rule: partition_down.induct)
  case (1 lt d a i j1)
  show ?case
  proof (cases "i < j1 \<and> \<not> lt (d ! (j1 - 1)) (d ! a)")
    case True
    then have "i \<le> j1 - 1" by linarith
    with 1 True have "i \<le> partition_down lt d a i (j1 - 1)" by blast
    with True show ?thesis by (subst partition_down.simps) simp
  next
    case False
    with 1 show ?thesis by (subst partition_down.simps) auto
  qed
qed

function partition_loop :: "('a \<Rightarrow> 'a \<Rightarrow> bool) \<Rightarrow> 'a list \<Rightarrow> nat \<Rightarrow> nat \<Rightarrow> nat \<Rightarrow> 'a list \<times> nat" where
  "partition_loop lt d a i j1 =
     (let i = partition_up lt d a i j1;
          j1 = partition_down lt d a i j1
      in if j1 \<le> i then (d, j1)
         else partition_loop lt (Swap d i (j1 - 1)) a (i + 1) (j1 - 1))"
  by pat_completeness auto
termination
proof (relation "measure (\<lambda>(lt, d, a, i, j1). j1 - i)", goal_cases)
  case 1
  show ?case by simp
next
  case (2 lt d a i j1 x xa)
  have "i \<le> x" using 2(1) partition_up_le[of i lt d a j1] by simp
  moreover have "xa \<le> j1" using 2(2) partition_down_le[of lt d a x j1] by simp
  ultimately show ?case using 2(3) by simp
qed

declare partition_loop.simps [simp del]

definition partition_func ::
  "('a \<Rightarrow> 'a \<Rightarrow> bool) \<Rightarrow> 'a list \<Rightarrow> nat \<Rightarrow> nat \<Rightarrow> nat \<Rightarrow> 'a list \<times> nat \<times> bool" where
  "partition_func lt d a b pivot =
     (let d = Swap d a pivot;
          i = partition_up lt d a (a + 1) b;
          j1 = partition_down lt d a i b
      in if j1 \<le> i then (Swap d (j1 - 1) a, j1 - 1, True)
         else
           case partition_loop lt (Swap d i (j1 - 1)) a (i + 1) (j1 - 1) of
             (d, j1) \<Rightarrow> (Swap d (j1 - 1) a, j1 - 1, False))"

function partitionEqual_up :: "('a \<Rightarrow> 'a \<Rightarrow> bool) \<Rightarrow> 'a list \<Rightarrow> nat \<Rightarrow> nat \<Rightarrow> nat \<Rightarrow> nat" where
  "partitionEqual_up lt d a i j1 =
     (if i < j1 \<and> \<not> lt (d ! a) (d ! i) then partitionEqual_up lt d a (i + 1) j1 else i)"
  by pat_completeness auto
termination
  by (relation "measure (\<lambda>(lt, d, a, i, j1). j1 - i)") auto

declare partitionEqual_up.simps [simp del]

function partitionEqual_down :: "('a \<Rightarrow> 'a \<Rightarrow> bool) \<Rightarrow> 'a list \<Rightarrow> nat \<Rightarrow> nat \<Rightarrow> nat \<Rightarrow> nat" where
  "partitionEqual_down lt d a i j1 =
     (if i < j1 \<and> lt (d ! a) (d ! (j1 - 1)) then partitionEqual_down lt d a i (j1 - 1) else j1)"
  by pat_completeness auto
termination
  by (relation "measure (\<lambda>(lt, d, a, i, j1). j1)") auto

declare partitionEqual_down.simps [simp del]

lemma partitionEqual_up_le: "i \<le> partitionEqual_up lt d a i j1"
proof (induction lt d a i j1 rule: partitionEqual_up.induct)
  case (1 lt d a i j1)
  show ?case
  proof (cases "i < j1 \<and> \<not> lt (d ! a) (d ! i)")
    case True
    with 1 have "i + 1 \<le> partitionEqual_up lt d a (i + 1) j1" by blast
    with True show ?thesis by (subst partitionEqual_up.simps) simp
  next
    case False
    then show ?thesis by (subst partitionEqual_up.simps) auto
  qed
qed

lemma partitionEqual_down_le: "partitionEqual_down lt d a i j1 \<le> j1"
proof (induction lt d a i j1 rule: partitionEqual_down.induct)
  case (1 lt d a i j1)
  show ?case
  proof (cases "i < j1 \<and> lt (d ! a) (d ! (j1 - 1))")
    case True
    with 1 have "partitionEqual_down lt d a i (j1 - 1) \<le> j1 - 1" by blast
    with True show ?thesis by (subst partitionEqual_down.simps) simp
  next
    case False
    then show ?thesis by (subst partitionEqual_down.simps) auto
  qed
qed

function partitionEqual_loop :: "('a \<Rightarrow> 'a \<Rightarrow> bool) \<Rightarrow> 'a list \<Rightarrow> nat \<Rightarrow> nat \<Rightarrow> nat \<Rightarrow> 'a list \<times> nat" where
  "partitionEqual_loop lt d a i j1 =
     (let i = partitionEqual_up lt d a i j1;
          j1 = partitionEqual_down lt d a i j1
      in if j1 \<le> i then (d, i)
         else partitionEqual_loop lt (Swap d i (j1 - 1)) a (i + 1) (j1 - 1))"
  by pat_completeness auto
termination
proof (relation "measure (\<lambda>(lt, d, a, i, j1). j1 - i)", goal_cases)
  case 1
  show ?case by simp
next
  case (2 lt d a i j1 x xa)
  have "i \<le> x" using 2(1) partitionEqual_up_le[of i lt d a j1] by simp
  moreover have "xa \<le> j1" using 2(2) partitionEqual_down_le[of lt d a x j1] by simp
  ultimately show ?case using 2(3) by simp
qed

declare partitionEqual_loop.simps [simp del]

definition partitionEqual_func ::
  "('a \<Rightarrow> 'a \<Rightarrow> bool) \<Rightarrow> 'a list \<Rightarrow> nat \<Rightarrow> nat \<Rightarrow> nat \<Rightarrow> 'a list \<times> nat" where
  "partitionEqual_func lt d a b pivot =
     partitionEqual_loop lt (Swap d a pivot) a (a + 1) b"

subsection \<open>pdqsort and \<^verbatim>\<open>sort.Slice\<close>\<close>

lemma partition_loop_bounds:
  "i \<le> j1 + 1 \<Longrightarrow> i - 1 \<le> snd (partition_loop lt d a i j1) \<and> snd (partition_loop lt d a i j1) \<le> j1"
proof (induction lt d a i j1 rule: partition_loop.induct)
  case (1 lt d a i j1)
  define i' where "i' = partition_up lt d a i j1"
  define j' where "j' = partition_down lt d a i' j1"
  have i': "i \<le> i'" unfolding i'_def by (rule partition_up_le)
  have j': "j' \<le> j1" unfolding j'_def by (rule partition_down_le)
  show ?case
  proof (cases "j' \<le> i'")
    case True
    have "i' \<le> j1 \<Longrightarrow> i' \<le> j'" unfolding j'_def by (rule partition_down_ge)
    moreover have "\<not> i' \<le> j1 \<Longrightarrow> j' = j1"
      unfolding j'_def by (subst partition_down.simps) simp
    moreover have "partition_loop lt d a i j1 = (d, j')"
      using True by (subst partition_loop.simps) (simp add: i'_def j'_def Let_def)
    ultimately show ?thesis using i' j' "1.prems" by (cases "i' \<le> j1") auto
  next
    case False
    have eq: "partition_loop lt d a i j1 = partition_loop lt (Swap d i' (j' - 1)) a (i' + 1) (j' - 1)"
      using False by (subst partition_loop.simps) (simp add: i'_def j'_def Let_def)
    have "i' + 1 - 1 \<le> snd (partition_loop lt (Swap d i' (j' - 1)) a (i' + 1) (j' - 1)) \<and>
          snd (partition_loop lt (Swap d i' (j' - 1)) a (i' + 1) (j' - 1)) \<le> j' - 1"
      using False by (intro "1.IH"[OF i'_def j'_def]) simp_all
    then show ?thesis using eq i' j' by (simp only:) linarith
  qed
qed

lemma partition_func_bounds:
  assumes "a < b"
  shows "a \<le> fst (snd (partition_func lt d a b pivot)) \<and> fst (snd (partition_func lt d a b pivot)) < b"
proof -
  define d0 where "d0 = Swap d a pivot"
  define i where "i = partition_up lt d0 a (a + 1) b"
  define j1 where "j1 = partition_down lt d0 a i b"
  have i: "a + 1 \<le> i" "i \<le> b"
    using assms partition_up_le[of "a + 1" lt d0 a b] partition_up_le2[of "a + 1" b lt d0 a]
    by (simp_all add: i_def)
  have j1: "i \<le> j1" "j1 \<le> b"
    using i partition_down_ge[of i b lt d0 a] partition_down_le[of lt d0 a i b]
    by (simp_all add: j1_def)
  show ?thesis
  proof (cases "j1 \<le> i")
    case True
    then have "partition_func lt d a b pivot = (Swap d0 (j1 - 1) a, j1 - 1, True)"
      by (simp add: partition_func_def Let_def d0_def i_def j1_def)
    then have "fst (snd (partition_func lt d a b pivot)) = j1 - 1" by simp
    then show ?thesis using i j1 by linarith
  next
    case False
    obtain d' j' where l: "partition_loop lt (Swap d0 i (j1 - 1)) a (i + 1) (j1 - 1) = (d', j')"
      by (cases "partition_loop lt (Swap d0 i (j1 - 1)) a (i + 1) (j1 - 1)") auto
    have "partition_func lt d a b pivot = (Swap d' (j' - 1) a, j' - 1, False)"
      using False l by (simp add: partition_func_def Let_def d0_def i_def j1_def)
    then have "fst (snd (partition_func lt d a b pivot)) = j' - 1" by simp
    moreover have "i \<le> j' \<and> j' \<le> j1 - 1"
      using partition_loop_bounds[of "i + 1" "j1 - 1" lt "Swap d0 i (j1 - 1)" a] False l by simp
    ultimately show ?thesis using i j1 by linarith
  qed
qed

lemma partitionEqual_loop_lower:
  "i \<le> snd (partitionEqual_loop lt d a i j1)"
proof (induction lt d a i j1 rule: partitionEqual_loop.induct)
  case (1 lt d a i j1)
  define i' where "i' = partitionEqual_up lt d a i j1"
  define j' where "j' = partitionEqual_down lt d a i' j1"
  have i': "i \<le> i'" unfolding i'_def by (rule partitionEqual_up_le)
  show ?case
  proof (cases "j' \<le> i'")
    case True
    then have "partitionEqual_loop lt d a i j1 = (d, i')"
      by (subst partitionEqual_loop.simps) (simp add: i'_def j'_def Let_def)
    then show ?thesis using i' by simp
  next
    case False
    have eq: "partitionEqual_loop lt d a i j1 =
              partitionEqual_loop lt (Swap d i' (j' - 1)) a (i' + 1) (j' - 1)"
      using False by (subst partitionEqual_loop.simps) (simp add: i'_def j'_def Let_def)
    have "i' + 1 \<le> snd (partitionEqual_loop lt (Swap d i' (j' - 1)) a (i' + 1) (j' - 1))"
      using False by (intro "1.IH"[OF i'_def j'_def]) simp
    then show ?thesis using eq i' by simp
  qed
qed

lemma partitionEqual_func_measure:
  assumes "(d', mid) = partitionEqual_func lt d a b p" "\<not> b - a \<le> (12::nat)"
  shows "b - mid < b - a"
proof -
  have "mid = snd (partitionEqual_func lt d a b p)" using assms(1) by (metis snd_conv)
  then have "a < mid"
    using partitionEqual_loop_lower[of "a + 1" lt "Swap d a p" a b]
    by (simp add: partitionEqual_func_def)
  then show ?thesis using assms(2) by linarith
qed

lemma partition_func_measure:
  assumes "(d', y) = partition_func lt d a b p" "(mid, al) = y" "\<not> b - a \<le> (12::nat)"
  shows "mid - a < b - a \<and> b - (mid + 1) < b - a"
proof -
  have "mid = fst (snd (partition_func lt d a b p))"
    using assms(1,2) by (metis fst_conv snd_conv)
  moreover have "a < b" using assms(3) by linarith
  ultimately have "a \<le> mid \<and> mid < b" using partition_func_bounds[of a b lt d p] by simp
  then show ?thesis by linarith
qed

text \<open>One pass of the loop of \<^verbatim>\<open>pdqsort_func\<close>, from the test of \<^verbatim>\<open>wasBalanced\<close> up to the
  partitioning, has no recursive call: it yields the slice, the limit, the pivot and
  whether \<^verbatim>\<open>partialInsertionSort_func\<close> has finished the range.\<close>

definition pdqsort_prepare ::
  "('a \<Rightarrow> 'a \<Rightarrow> bool) \<Rightarrow> 'a list \<Rightarrow> nat \<Rightarrow> nat \<Rightarrow> nat \<Rightarrow> bool \<Rightarrow> bool \<Rightarrow> 'a list \<times> nat \<times> nat \<times> bool" where
  "pdqsort_prepare lt d a b limit wasBalanced wasPartitioned =
     (let (d, limit) = (if \<not> wasBalanced then (breakPatterns_func d a b, limit - 1) else (d, limit));
          (pivot, hint) = choosePivot_func lt d a b;
          (d, pivot, hint) =
            (if hint = decreasingHint
             then (reverseRange_func d a b, (b - 1) - (pivot - a), increasingHint)
             else (d, pivot, hint));
          (d, isSorted) =
            (if wasBalanced \<and> wasPartitioned \<and> hint = increasingHint
             then partialInsertionSort_func lt d a b else (d, False))
      in (d, limit, pivot, isSorted))"

text \<open>The loop \<^verbatim>\<open>for { ... }\<close> of \<^verbatim>\<open>pdqsort_func\<close> continues by a call on the new range; a
  recursive call of the source starts with \<^verbatim>\<open>wasBalanced\<close> and \<^verbatim>\<open>wasPartitioned\<close> true.\<close>

function pdqsort_func ::
  "('a \<Rightarrow> 'a \<Rightarrow> bool) \<Rightarrow> 'a list \<Rightarrow> nat \<Rightarrow> nat \<Rightarrow> nat \<Rightarrow> bool \<Rightarrow> bool \<Rightarrow> 'a list" where
  "pdqsort_func lt d a b limit wasBalanced wasPartitioned =
     (if b - a \<le> 12 then insertionSort_func lt d a b
      else if limit = 0 then heapSort_func lt d a b
      else
        case pdqsort_prepare lt d a b limit wasBalanced wasPartitioned of
          (d, limit, pivot, isSorted) \<Rightarrow>
            if isSorted then d
            else if 0 < a \<and> \<not> lt (d ! (a - 1)) (d ! pivot) then
              (case partitionEqual_func lt d a b pivot of
                 (d, mid) \<Rightarrow> pdqsort_func lt d mid b limit wasBalanced wasPartitioned)
            else
              (case partition_func lt d a b pivot of
                 (d, mid, alreadyPartitioned) \<Rightarrow>
                   if mid - a < b - mid
                   then pdqsort_func lt (pdqsort_func lt d a mid limit True True) (mid + 1) b limit
                          ((b - a) div 8 \<le> mid - a) alreadyPartitioned
                   else pdqsort_func lt (pdqsort_func lt d (mid + 1) b limit True True) a mid limit
                          ((b - a) div 8 \<le> b - mid) alreadyPartitioned))"
  by pat_completeness auto
termination
proof (relation "measure (\<lambda>(lt, d, a, b, limit, wb, wp). b - a)", goal_cases)
  case 1
  show ?case by simp
next
  case prems: (2 lt d a b limit wb wp x y xa ya xb yb xc yc)
  show ?case
    using partitionEqual_func_measure[OF prems(8) prems(1)] by simp
next
  case prems: (3 lt d a b limit wb wp x y xa ya xb yb xc yc xd yd)
  show ?case
    using partition_func_measure[OF prems(8) prems(9) prems(1)] by simp
next
  case prems: (4 lt d a b limit wb wp x y xa ya xb yb xc yc xd yd)
  show ?case
    using partition_func_measure[OF prems(8) prems(9) prems(1)] by simp
next
  case prems: (5 lt d a b limit wb wp x y xa ya xb yb xc yc xd yd)
  show ?case
    using partition_func_measure[OF prems(8) prems(9) prems(1)] by simp
next
  case prems: (6 lt d a b limit wb wp x y xa ya xb yb xc yc xd yd)
  show ?case
    using partition_func_measure[OF prems(8) prems(9) prems(1)] by simp
qed

declare pdqsort_func.simps [simp del]

text \<open>\<^verbatim>\<open>sort.Slice(x, less)\<close>: \<^verbatim>\<open>limit := bits.Len(uint(length))\<close>, then
  \<^verbatim>\<open>pdqsort_func(lessSwap{less, swap}, 0, length, limit)\<close>.\<close>

definition sort_Slice :: "('a \<Rightarrow> 'a \<Rightarrow> bool) \<Rightarrow> 'a list \<Rightarrow> 'a list" where
  "sort_Slice lt x =
     (let len = length x; limit = bits_Len len
      in pdqsort_func lt x 0 len limit True True)"

section \<open>The signature: \<^verbatim>\<open>hashLabelsTimestamp\<close> and \<^verbatim>\<open>hashLabels\<close>\<close>

text \<open>
  The body of the loop \<^verbatim>\<open>for _, idx := range indices\<close>: the key, a separator, the value
  when \<^verbatim>\<open>idx < len(labelValues)\<close>, a separator.  Every \<^verbatim>\<open>idx\<close> is below
  \<^verbatim>\<open>len(labelKeys)\<close>, so \<^verbatim>\<open>labelKeys[idx]\<close> does not panic.
\<close>

definition hashLabel :: "string list \<Rightarrow> string list \<Rightarrow> 64 word \<Rightarrow> nat \<Rightarrow> 64 word" where
  "hashLabel labelKeys labelValues h idx =
     (let h = Add h (labelKeys ! idx);
          h = AddByte h SeparatorByte;
          h = (if idx < length labelValues then Add h (labelValues ! idx) else h)
      in AddByte h SeparatorByte)"

text \<open>The index slice \<^verbatim>\<open>[0, 1, 2, ...]\<close> sorted by \<^verbatim>\<open>labelKeys[indices[i]] < labelKeys[indices[j]]\<close>;
  Go compares strings byte by byte, as the lexicographic order on byte lists does.\<close>

definition sortedIndices :: "string list \<Rightarrow> nat list" where
  "sortedIndices labelKeys =
     sort_Slice (\<lambda>i j. labelKeys ! i < labelKeys ! j) [0..<length labelKeys]"

definition hashLabels :: "string \<Rightarrow> string list \<Rightarrow> string list \<Rightarrow> 64 word" where
  "hashLabels fqName labelKeys labelValues =
     (let h = New;
          h = Add h fqName;
          h = AddByte h SeparatorByte
      in if 0 < length labelKeys
         then foldl (hashLabel labelKeys labelValues) h (sortedIndices labelKeys)
         else h)"

text \<open>The time stamp enters as \<^verbatim>\<open>uint64(ts.UnixNano())\<close>; the model takes that 64-bit
  value as the argument \<open>ts\<close>.\<close>

definition hashLabelsTimestamp :: "string \<Rightarrow> string list \<Rightarrow> string list \<Rightarrow> 64 word \<Rightarrow> 64 word" where
  "hashLabelsTimestamp fqName labelKeys labelValues ts =
     (let h = New;
          h = Add h fqName;
          h = AddByte h SeparatorByte;
          h = (if 0 < length labelKeys
               then foldl (hashLabel labelKeys labelValues) h (sortedIndices labelKeys)
               else h)
      in AddUint64 h ts)"

section \<open>The deduplicator\<close>

text \<open>
  \<^verbatim>\<open>MetricDeduplicator\<close>: the set \<^verbatim>\<open>sentSignatures\<close>, the two counters and the gauge.  The
  mutex makes every method one atomic step, so a method is a function from the state
  to the new state (and the result).  A counter is the number of its \<^verbatim>\<open>Inc\<close> calls and
  the gauge the number last \<^verbatim>\<open>Set\<close>, both natural numbers; the logger does not act on
  the state.
\<close>

record MetricDeduplicator =
  sentSignatures :: "64 word set"
  duplicatesTotal :: nat
  checksTotal :: nat
  uniqueMetricsGauge :: nat

definition NewMetricDeduplicator :: MetricDeduplicator where
  "NewMetricDeduplicator =
     \<lparr>sentSignatures = {}, duplicatesTotal = 0, checksTotal = 0, uniqueMetricsGauge = 0\<rparr>"

text \<open>The test-and-set on a computed signature, shared by the two variants of
  \<^verbatim>\<open>CheckAndMark\<close>.\<close>

definition checkSignature :: "MetricDeduplicator \<Rightarrow> 64 word \<Rightarrow> MetricDeduplicator \<times> bool" where
  "checkSignature d signature =
     (let d = d\<lparr>checksTotal := checksTotal d + 1\<rparr> in
      if signature \<in> sentSignatures d
      then (d\<lparr>duplicatesTotal := duplicatesTotal d + 1\<rparr>, True)
      else
        let d = d\<lparr>sentSignatures := insert signature (sentSignatures d)\<rparr>
        in (d\<lparr>uniqueMetricsGauge := card (sentSignatures d)\<rparr>, False))"

text \<open>\<^verbatim>\<open>collectors/deduplicator.go\<close>: the signature includes the time stamp.\<close>

definition CheckAndMark ::
  "MetricDeduplicator \<Rightarrow> string \<Rightarrow> string list \<Rightarrow> string list \<Rightarrow> 64 word \<Rightarrow> MetricDeduplicator \<times> bool" where
  "CheckAndMark d name labelKeys labelValues ts =
     checkSignature d (hashLabelsTimestamp name labelKeys labelValues ts)"

definition RevertMark ::
  "MetricDeduplicator \<Rightarrow> string \<Rightarrow> string list \<Rightarrow> string list \<Rightarrow> 64 word \<Rightarrow> MetricDeduplicator" where
  "RevertMark d fqName labelKeys labelValues ts =
     (let signature = hashLabelsTimestamp fqName labelKeys labelValues ts;
          d = d\<lparr>sentSignatures := sentSignatures d - {signature}\<rparr>
      in d\<lparr>uniqueMetricsGauge := card (sentSignatures d)\<rparr>)"

definition Reset :: "MetricDeduplicator \<Rightarrow> MetricDeduplicator" where
  "Reset d = d\<lparr>sentSignatures := {}, uniqueMetricsGauge := 0\<rparr>"

text \<open>The variant with the \<^verbatim>\<open>project_id\<close> label on its metrics: \<^verbatim>\<open>CheckAndMark\<close> takes no
  time stamp, and \<^verbatim>\<open>RevertMark\<close> takes one and calls \<^verbatim>\<open>hashLabels\<close> without it.  Its
  \<^verbatim>\<open>Reset\<close> is the one above.\<close>

definition CheckAndMark_project ::
  "MetricDeduplicator \<Rightarrow> string \<Rightarrow> string list \<Rightarrow> string list \<Rightarrow> MetricDeduplicator \<times> bool" where
  "CheckAndMark_project d name labelKeys labelValues =
     checkSignature d (hashLabels name labelKeys labelValues)"

definition RevertMark_project ::
  "MetricDeduplicator \<Rightarrow> string \<Rightarrow> string list \<Rightarrow> string list \<Rightarrow> 64 word \<Rightarrow> MetricDeduplicator" where
  "RevertMark_project d fqName labelKeys labelValues ts =
     (let signature = hashLabels fqName labelKeys labelValues;
          d = d\<lparr>sentSignatures := sentSignatures d - {signature}\<rparr>
      in d\<lparr>uniqueMetricsGauge := card (sentSignatures d)\<rparr>)"

text \<open>A run of \<open>n\<close> calls of \<^verbatim>\<open>CheckAndMark\<close> with the same arguments, as the tests make
  them: the final state and the results in call order.\<close>

fun CheckAndMark_times ::
  "nat \<Rightarrow> MetricDeduplicator \<Rightarrow> string \<Rightarrow> string list \<Rightarrow> string list \<Rightarrow> 64 word \<Rightarrow> MetricDeduplicator \<times> bool list" where
  "CheckAndMark_times 0 d name labelKeys labelValues ts = (d, [])"
| "CheckAndMark_times (Suc n) d name labelKeys labelValues ts =
     (case CheckAndMark d name labelKeys labelValues ts of
        (d, r) \<Rightarrow>
          (case CheckAndMark_times n d name labelKeys labelValues ts of
             (d, rs) \<Rightarrow> (d, r # rs)))"

text \<open>Any sequence of calls of the three methods, for statements about all histories.\<close>

datatype call =
    CallCheckAndMark string "string list" "string list" "64 word"
  | CallRevertMark string "string list" "string list" "64 word"
  | CallReset

fun call_step :: "MetricDeduplicator \<Rightarrow> call \<Rightarrow> MetricDeduplicator" where
  "call_step d (CallCheckAndMark name ks vs ts) = fst (CheckAndMark d name ks vs ts)"
| "call_step d (CallRevertMark name ks vs ts) = RevertMark d name ks vs ts"
| "call_step d CallReset = Reset d"





section \<open>Label assembly\<close>

text \<open>
  Modelled from the spec: \<^verbatim>\<open>collectors/monitoring_collector.go\<close>, with \<^verbatim>\<open>keyExists\<close>,
  \<^verbatim>\<open>addSystemLabels\<close> and \<^verbatim>\<open>reportTimeSeriesMetrics\<close>, is not among the sources; its tests
  are.  \<^verbatim>\<open>keyExists\<close> is the linear, case-sensitive scan of spec 4.2.  The decoder of
  the system-label payload is a library the spec does not detail; the model takes it as
  the parameter \<open>decode\<close>, which yields the shape of the payload: unparsable text, the
  literal \<^verbatim>\<open>null\<close>, another scalar, an array, or an object flattened to string-valued
  pairs in the order of the payload (spec 9).  \<^verbatim>\<open>addSystemLabels\<close> accepts an object only
  and appends its pairs, skipping keys already present; an empty payload and every
  other shape leave the two slices as they are.  The slices \<^verbatim>\<open>*labelKeys\<close> and
  \<^verbatim>\<open>*labelValues\<close> are a pair of lists, passed in and returned.
\<close>

fun keyExists :: "string list \<Rightarrow> string \<Rightarrow> bool" where
  "keyExists [] key = False"
| "keyExists (k # labelKeys) key = (if k = key then True else keyExists labelKeys key)"

datatype decoded = Unparsable | NullLiteral | Scalar | Array | Object "(string \<times> string) list"

text \<open>The loop \<^verbatim>\<open>for key, value := range labels\<close> with \<^verbatim>\<open>if !keyExists(labelKeys, key)\<close> and the
  two \<^verbatim>\<open>append\<close>s, as \<^verbatim>\<open>monitoring_collector_flags_test.go\<close> writes it for every source; a
  mapping is the list of its pairs in the order the loop visits them.\<close>

definition appendIfAbsent ::
  "string list \<times> string list \<Rightarrow> string \<times> string \<Rightarrow> string list \<times> string list" where
  "appendIfAbsent kv p =
     (case kv of (labelKeys, labelValues) \<Rightarrow>
        if \<not> keyExists labelKeys (fst p)
        then (labelKeys @ [fst p], labelValues @ [snd p])
        else (labelKeys, labelValues))"

definition appendLabels ::
  "string list \<times> string list \<Rightarrow> (string \<times> string) list \<Rightarrow> string list \<times> string list" where
  "appendLabels kv labels = foldl appendIfAbsent kv labels"

definition addSystemLabels ::
  "(string \<Rightarrow> decoded) \<Rightarrow> string \<Rightarrow> string list \<times> string list \<Rightarrow> string list \<times> string list" where
  "addSystemLabels decode systemLabels kv =
     (if systemLabels = [] then kv
      else case decode systemLabels of
             Object pairs \<Rightarrow> appendLabels kv pairs
           | _ \<Rightarrow> kv)"


text \<open>The shapes of the payloads that the tests pass, for evaluating the model on them.\<close>

definition testDecode :: "string \<Rightarrow> decoded" where
  \<open>testDecode s =
     (if s = ''null'' then NullLiteral
      else if s = ''["not", "an", "object"]'' then Array
      else if s = ''{"conflict_key": "system_value", "system_only": "system_only_value"}''
      then Object [(''conflict_key'', ''system_value''), (''system_only'', ''system_only_value'')]
      else Unparsable)\<close>

section \<open>Properties of the hash accumulator\<close>


text \<open>
  C3 (as stated): \<^verbatim>\<open>AddUint64(h, v)\<close> is the fold of \<^verbatim>\<open>AddByte\<close> over the eight bytes of \<open>v\<close>,
  least significant first, and for every nonzero \<open>v\<close> the value \<^verbatim>\<open>AddUint64(New(), v)\<close>
  differs from the single step \<^verbatim>\<open>(New() XOR v) * prime\<close>.  The second half fails: at the
  nonzero value \<open>5694225090690816574\<close> (hexadecimal \<open>4f05f38cf9be1a3e\<close>) the two agree.
\<close>

theorem AddUint64_old_agree_counterexample:
  "(5694225090690816574 :: 64 word) \<noteq> 0 \<and>
   AddUint64 New 5694225090690816574 = oldAddUint64 New 5694225090690816574"
  by (simp add: AddUint64_def oldAddUint64_def New_def offset64_def prime64_def AddByte_def upt_rec)

text \<open>
  C3 (amended): for every state \<open>h\<close> and value \<open>v\<close>, \<^verbatim>\<open>AddUint64(h, v)\<close> is the fold of
  \<^verbatim>\<open>AddByte\<close> over the eight bytes of \<open>v\<close> taken least significant first, where
  \<^verbatim>\<open>AddByte(s, b) = (s XOR b) * prime\<close> in 64-bit arithmetic; and at the value
  \<open>0x0102030405060708\<close> of the tests \<^verbatim>\<open>AddUint64(New(), v)\<close> differs from the single step
  \<^verbatim>\<open>(New() XOR v) * prime\<close>.
\<close>

theorem AddUint64_byte_order:
  "AddUint64 h v =
     foldl (\<lambda>s b. (s XOR ucast b) * prime64) h
       [ucast v :: 8 word, ucast (drop_bit 8 v), ucast (drop_bit 16 v), ucast (drop_bit 24 v),
        ucast (drop_bit 32 v), ucast (drop_bit 40 v), ucast (drop_bit 48 v), ucast (drop_bit 56 v)] \<and>
   AddUint64 New 0x0102030405060708 =
     foldl AddByte New [0x08, 0x07, 0x06, 0x05, 0x04, 0x03, 0x02, 0x01] \<and>
   AddUint64 New 0x0102030405060708 \<noteq> oldAddUint64 New 0x0102030405060708"
proof (intro conjI)
  show "AddUint64 h v =
     foldl (\<lambda>s b. (s XOR ucast b) * prime64) h
       [ucast v :: 8 word, ucast (drop_bit 8 v), ucast (drop_bit 16 v), ucast (drop_bit 24 v),
        ucast (drop_bit 32 v), ucast (drop_bit 40 v), ucast (drop_bit 48 v), ucast (drop_bit 56 v)]"
    by (simp add: AddUint64_def AddByte_def upt_rec)
  show "AddUint64 New 0x0102030405060708 =
     foldl AddByte New [0x08, 0x07, 0x06, 0x05, 0x04, 0x03, 0x02, 0x01]"
    by (simp add: AddUint64_def New_def offset64_def prime64_def AddByte_def upt_rec)
  show "AddUint64 New 0x0102030405060708 \<noteq> oldAddUint64 New 0x0102030405060708"
    by (simp add: AddUint64_def oldAddUint64_def New_def offset64_def prime64_def AddByte_def upt_rec)
qed

section \<open>Properties of \<^verbatim>\<open>sort.Slice\<close> on short slices\<close>
























section \<open>Properties of the signature\<close>

















section \<open>Properties of the deduplicator\<close>

lemma checkSignature_hit:
  "s \<in> sentSignatures d \<Longrightarrow>
   checkSignature d s =
     (d\<lparr>checksTotal := checksTotal d + 1, duplicatesTotal := duplicatesTotal d + 1\<rparr>, True)"
  by (simp add: checkSignature_def Let_def)

lemma checkSignature_miss:
  "s \<notin> sentSignatures d \<Longrightarrow>
   checkSignature d s =
     (d\<lparr>checksTotal := checksTotal d + 1, sentSignatures := insert s (sentSignatures d),
        uniqueMetricsGauge := card (insert s (sentSignatures d))\<rparr>, False)"
  by (simp add: checkSignature_def Let_def)

text \<open>
  C4: every call of \<^verbatim>\<open>CheckAndMark\<close> adds one to the checks counter.  When the signature
  is in the set, the call returns true, adds one to the duplicates counter and leaves
  the set and the gauge as they were; otherwise it returns false, inserts the
  signature, leaves the duplicates counter, and sets the gauge to the size of the new
  set.
\<close>

theorem CheckAndMark_postconditions:
  "(case CheckAndMark d name labelKeys labelValues ts of
      (d', r) \<Rightarrow>
        checksTotal d' = checksTotal d + 1 \<and>
        (if hashLabelsTimestamp name labelKeys labelValues ts \<in> sentSignatures d
         then r \<and> duplicatesTotal d' = duplicatesTotal d + 1 \<and>
              sentSignatures d' = sentSignatures d \<and>
              uniqueMetricsGauge d' = uniqueMetricsGauge d
         else \<not> r \<and> duplicatesTotal d' = duplicatesTotal d \<and>
              sentSignatures d' =
                insert (hashLabelsTimestamp name labelKeys labelValues ts) (sentSignatures d) \<and>
              uniqueMetricsGauge d' = card (sentSignatures d')))"
  by (cases "hashLabelsTimestamp name labelKeys labelValues ts \<in> sentSignatures d")
     (simp_all add: CheckAndMark_def checkSignature_hit checkSignature_miss)

theorem CheckAndMark_postconditions_witness:
  "(case CheckAndMark NewMetricDeduplicator ''test_metric'' [''label1''] [''value1''] 0 of
      (d', r) \<Rightarrow>
        checksTotal d' = 1 \<and> \<not> r \<and> duplicatesTotal d' = 0 \<and> uniqueMetricsGauge d' = 1)"
  using CheckAndMark_postconditions
    [of NewMetricDeduplicator "''test_metric''" "[''label1'']" "[''value1'']" 0]
  by (simp add: NewMetricDeduplicator_def split_beta)

lemma CheckAndMark_times_marked:
  "hashLabelsTimestamp name ks vs ts \<in> sentSignatures d \<Longrightarrow>
   snd (CheckAndMark_times n d name ks vs ts) = replicate n True"
proof (induction n arbitrary: d)
  case 0
  show ?case by simp
next
  case (Suc n)
  let ?d = "d\<lparr>checksTotal := checksTotal d + 1, duplicatesTotal := duplicatesTotal d + 1\<rparr>"
  have c: "CheckAndMark d name ks vs ts = (?d, True)"
    using Suc.prems by (simp add: CheckAndMark_def checkSignature_hit)
  have "hashLabelsTimestamp name ks vs ts \<in> sentSignatures ?d" using Suc.prems by simp
  then have "snd (CheckAndMark_times n ?d name ks vs ts) = replicate n True" by (rule Suc.IH)
  then show ?case using c by (simp add: split_beta)
qed

text \<open>
  C6: from a state in which the signature of the tuple is not yet marked (the new
  deduplicator, or any state after \<^verbatim>\<open>Reset\<close>), \<open>n \<ge> 1\<close> calls of \<^verbatim>\<open>CheckAndMark\<close> with the
  same arguments and nothing in between return false once and then true \<open>n - 1\<close> times.
\<close>

theorem CheckAndMark_idempotent:
  assumes "hashLabelsTimestamp name ks vs ts \<notin> sentSignatures d" and "1 \<le> n"
  shows "snd (CheckAndMark_times n d name ks vs ts) = False # replicate (n - 1) True"
proof -
  obtain m where m: "n = Suc m" using assms(2) by (cases n) auto
  let ?s = "hashLabelsTimestamp name ks vs ts"
  let ?d = "d\<lparr>checksTotal := checksTotal d + 1, sentSignatures := insert ?s (sentSignatures d),
        uniqueMetricsGauge := card (insert ?s (sentSignatures d))\<rparr>"
  have c: "CheckAndMark d name ks vs ts = (?d, False)"
    using assms(1) by (simp add: CheckAndMark_def checkSignature_miss)
  have "?s \<in> sentSignatures ?d" by simp
  then have "snd (CheckAndMark_times m ?d name ks vs ts) = replicate m True"
    by (rule CheckAndMark_times_marked)
  then show ?thesis using c m by (simp add: split_beta)
qed

theorem CheckAndMark_idempotent_witness:
  "hashLabelsTimestamp ''test_metric'' [''label1'', ''label2''] [''value1'', ''value2''] 5
     \<notin> sentSignatures NewMetricDeduplicator \<and> (1::nat) \<le> 3 \<and>
   snd (CheckAndMark_times 3 NewMetricDeduplicator ''test_metric'' [''label1'', ''label2'']
          [''value1'', ''value2''] 5) = [False, True, True]"
  using CheckAndMark_idempotent
    [of "''test_metric''" "[''label1'', ''label2'']" "[''value1'', ''value2'']" 5
        NewMetricDeduplicator 3]
  by (simp add: NewMetricDeduplicator_def numeral_3_eq_3)

lemma call_step_counters:
  "checksTotal d \<le> checksTotal (call_step d c) \<and>
   duplicatesTotal d \<le> duplicatesTotal (call_step d c)"
  by (cases c) (simp_all add: CheckAndMark_def checkSignature_def RevertMark_def Reset_def Let_def)

lemma foldl_call_step_counters:
  "checksTotal d \<le> checksTotal (foldl call_step d cs) \<and>
   duplicatesTotal d \<le> duplicatesTotal (foldl call_step d cs)"
proof (induction cs arbitrary: d)
  case Nil
  show ?case by simp
next
  case (Cons c cs)
  have "checksTotal d \<le> checksTotal (call_step d c)"
    and "duplicatesTotal d \<le> duplicatesTotal (call_step d c)"
    using call_step_counters[of d c] by simp_all
  moreover have "checksTotal (call_step d c) \<le> checksTotal (foldl call_step (call_step d c) cs)"
    and "duplicatesTotal (call_step d c) \<le> duplicatesTotal (foldl call_step (call_step d c) cs)"
    using Cons.IH[of "call_step d c"] by simp_all
  ultimately show ?case by (simp only: foldl_Cons) linarith
qed

text \<open>
  C7: \<^verbatim>\<open>Reset\<close> empties the set of signatures and sets the gauge to 0, and leaves both
  counters unchanged; hence the first \<^verbatim>\<open>CheckAndMark\<close> after a \<^verbatim>\<open>Reset\<close> returns false for
  every tuple, marked before or not; and along any sequence of calls of \<^verbatim>\<open>CheckAndMark\<close>,
  \<^verbatim>\<open>RevertMark\<close> and \<^verbatim>\<open>Reset\<close> neither counter decreases.
\<close>

theorem Reset_isolation:
  "sentSignatures (Reset d) = {} \<and> uniqueMetricsGauge (Reset d) = 0 \<and>
   checksTotal (Reset d) = checksTotal d \<and> duplicatesTotal (Reset d) = duplicatesTotal d \<and>
   snd (CheckAndMark (Reset d) name ks vs ts) = False \<and>
   checksTotal d \<le> checksTotal (foldl call_step d cs) \<and>
   duplicatesTotal d \<le> duplicatesTotal (foldl call_step d cs)"
  using foldl_call_step_counters[of d cs]
  by (simp add: Reset_def CheckAndMark_def checkSignature_def Let_def)

text \<open>
  C10: in the variant with the project label, \<^verbatim>\<open>RevertMark\<close> does not use its time stamp:
  with any two time stamps it yields the same state, gauge included, since the
  signature it deletes is \<^verbatim>\<open>hashLabels(fqName, labelKeys, labelValues)\<close>.
\<close>

theorem RevertMark_project_ignores_timestamp:
  "RevertMark_project d fqName labelKeys labelValues ts1 =
   RevertMark_project d fqName labelKeys labelValues ts2"
  by (simp add: RevertMark_project_def)

section \<open>Properties of the label assembly\<close>

text \<open>
  C8: for every label set and every payload that is empty, unparsable, the literal
  \<^verbatim>\<open>null\<close>, an array or another shape that is not an object, \<^verbatim>\<open>addSystemLabels\<close> returns
  the keys and the values unchanged; it has no error result.
\<close>

theorem addSystemLabels_malformed_noop:
  "systemLabels = [] \<or> decode systemLabels = Unparsable \<or> decode systemLabels = NullLiteral \<or>
   decode systemLabels = Scalar \<or> decode systemLabels = Array \<Longrightarrow>
   addSystemLabels decode systemLabels (labelKeys, labelValues) = (labelKeys, labelValues)"
  by (auto simp: addSystemLabels_def)

theorem addSystemLabels_malformed_noop_witness:
  \<open>testDecode ''["not", "an", "object"]'' = Array \<and>
   addSystemLabels testDecode ''["not", "an", "object"]'' ([''existing''], [''value'']) =
     ([''existing''], [''value''])\<close>
  using addSystemLabels_malformed_noop
    [of \<open>''["not", "an", "object"]''\<close> testDecode "[''existing'']" "[''value'']"]
  by (simp add: testDecode_def)



end
